theory Spec2Isabelle
  imports Complex_Main
begin

section \<open>Values exchanged with the node\<close>

text \<open>
  The Python values that \<open>json.loads\<close> and \<open>response.json()\<close> produce and that
  \<open>json=\<close> serialises. A dict is the list of its items in insertion order; its keys are
  strings and pairwise distinct. A float is kept as an opaque pair (mantissa, exponent):
  the client never computes with it.
\<close>

datatype pyval =
    PNone
  | PBool bool
  | PInt int
  | PFloat int int
  | PStr string
  | PList "pyval list"
  | PDict "(string \<times> pyval) list"

text \<open>\<open>types.py\<close>: \<open>class ErrorCode(Enum)\<close> and \<open>class AIngleError(Exception)\<close>.\<close>

datatype ErrorCode =
    CONNECTION_FAILED
  | TIMEOUT
  | NOT_FOUND
  | INVALID_ENTRY
  | STORAGE_ERROR
  | NETWORK_ERROR
  | AUTH_ERROR

text \<open>
  Every exception that can leave a method of the client: \<open>AIngleError\<close> of \<open>types.py\<close>
  (code, message, cause), the exceptions of httpx (\<open>HTTPStatusError\<close> with the status of
  its response, \<open>TimeoutException\<close>, \<open>ConnectError\<close>, any other \<open>TransportError\<close>), the
  builtins raised by the method bodies themselves, a failed WebSocket handshake, and
  whatever a user callback raises.
\<close>

datatype exn =
    AIngleError ErrorCode string "exn option"
  | HTTPStatusError int
  | TimeoutException
  | ConnectError
  | TransportError string
  | RuntimeError
  | JSONDecodeError
  | KeyError string
  | TypeError
  | AssertionError
  | WebSocketException string
  | UserError string

text \<open>The \<open>code\<close> attribute of a raised \<open>AIngleError\<close>; no other exception has one.\<close>

fun raised_code :: "exn + 'a \<Rightarrow> ErrorCode option" where
  "raised_code (Inl (AIngleError c m x)) = Some c"
| "raised_code (Inl e) = None"
| "raised_code (Inr v) = None"

text \<open>
  \<open>types.py\<close>: the dataclasses \<open>Entry\<close> and \<open>NodeInfo\<close>. A dataclass does not check the
  annotated types at run time, so every field holds whatever value it was given.
\<close>

record Entry =
  hash :: pyval
  author :: pyval
  parents :: pyval
  data :: pyval
  timestamp :: pyval
  sequence :: pyval
  signature :: pyval

record NodeInfo =
  node_id :: pyval
  version :: pyval
  uptime :: pyval
  entries_count :: pyval
  peers_count :: pyval
  storage_backend :: pyval
  features :: pyval

definition Entry_fields :: "string list" where
  "Entry_fields =
     [''hash'', ''author'', ''parents'', ''data'', ''timestamp'', ''sequence'', ''signature'']"

definition NodeInfo_fields :: "string list" where
  "NodeInfo_fields =
     [''node_id'', ''version'', ''uptime'', ''entries_count'', ''peers_count'',
      ''storage_backend'', ''features'']"

text \<open>
  A call \<open>C(**kw)\<close> of a dataclass constructor binds the keywords to the fields: it raises
  \<open>TypeError\<close> for a keyword that is no field and for a field without a keyword.
\<close>

definition kwargs_bind :: "string list \<Rightarrow> (string \<times> pyval) list \<Rightarrow> bool" where
  "kwargs_bind names kw =
     (list_all (\<lambda>k. k \<in> set names) (map fst kw) \<and>
      list_all (\<lambda>f. f \<in> set (map fst kw)) names)"

text \<open>The argument bound to a field; only read once \<open>kwargs_bind\<close> has held.\<close>

definition arg :: "(string \<times> pyval) list \<Rightarrow> string \<Rightarrow> pyval" where
  "arg kw k = (case map_of kw k of Some v \<Rightarrow> v | None \<Rightarrow> PNone)"

definition Entry_of :: "(string \<times> pyval) list \<Rightarrow> Entry" where
  "Entry_of kw =
     \<lparr>hash = arg kw ''hash'', author = arg kw ''author'', parents = arg kw ''parents'',
      data = arg kw ''data'', timestamp = arg kw ''timestamp'',
      sequence = arg kw ''sequence'', signature = arg kw ''signature''\<rparr>"

definition NodeInfo_of :: "(string \<times> pyval) list \<Rightarrow> NodeInfo" where
  "NodeInfo_of kw =
     \<lparr>node_id = arg kw ''node_id'', version = arg kw ''version'', uptime = arg kw ''uptime'',
      entries_count = arg kw ''entries_count'', peers_count = arg kw ''peers_count'',
      storage_backend = arg kw ''storage_backend'', features = arg kw ''features''\<rparr>"

text \<open>\<open>Entry(**v)\<close> and \<open>NodeInfo(**v)\<close>: \<open>**\<close> of a value that is no mapping is a \<open>TypeError\<close>.\<close>

fun Entry_init :: "pyval \<Rightarrow> exn + Entry" where
  "Entry_init (PDict kw) =
     (if kwargs_bind Entry_fields kw then Inr (Entry_of kw) else Inl TypeError)"
| "Entry_init v = Inl TypeError"

fun NodeInfo_init :: "pyval \<Rightarrow> exn + NodeInfo" where
  "NodeInfo_init (PDict kw) =
     (if kwargs_bind NodeInfo_fields kw then Inr (NodeInfo_of kw) else Inl TypeError)"
| "NodeInfo_init v = Inl TypeError"

text \<open>\<open>v[key]\<close>: \<open>KeyError\<close> on a dict without the key, \<open>TypeError\<close> on any other value.\<close>

fun subscript :: "pyval \<Rightarrow> string \<Rightarrow> exn + pyval" where
  "subscript (PDict kw) k = (case map_of kw k of Some v \<Rightarrow> Inr v | None \<Rightarrow> Inl (KeyError k))"
| "subscript v k = Inl TypeError"

section \<open>The HTTP transport\<close>

datatype http_method = GET | POST

record request =
  verb :: http_method
  path :: string
  json :: "pyval option"

text \<open>
  A response: its status and what \<open>json.loads\<close> makes of its body (\<open>None\<close> for a body that
  is no JSON text).
\<close>

record response =
  status_code :: int
  body :: "pyval option"

text \<open>
  The node and the network between: for a request, either the exception httpx raises
  (timeout, refused connection, ...) or the response received.
\<close>

type_synonym network = "request \<Rightarrow> exn + response"

definition is_success :: "response \<Rightarrow> bool" where
  "is_success r = (200 \<le> status_code r \<and> status_code r \<le> 299)"

text \<open>httpx: \<open>raise_for_status\<close> raises \<open>HTTPStatusError\<close> unless the status is 2xx.\<close>

definition raise_for_status :: "response \<Rightarrow> exn option" where
  "raise_for_status r = (if is_success r then None else Some (HTTPStatusError (status_code r)))"

definition response_json :: "response \<Rightarrow> exn + pyval" where
  "response_json r = (case body r of None \<Rightarrow> Inl JSONDecodeError | Some v \<Rightarrow> Inr v)"

section \<open>The client and its run-time objects\<close>

text \<open>
  \<open>client.py\<close>: \<open>AIngleClientConfig\<close> and the fields of \<open>AIngleClient\<close>. The timeout is a
  Python float that the client only hands on to httpx; it is kept as a real number.
\<close>

record AIngleClientConfig =
  node_url :: string
  ws_url :: string
  timeout :: real
  debug :: bool

text \<open>
  \<open>_http_client\<close> and \<open>_ws\<close> are references to objects of httpx and websockets: a
  reference is the index of the object in the store of the state below.
\<close>

record AIngleClient =
  config :: AIngleClientConfig
  http_client :: "nat option"
  ws :: "nat option"

record AsyncClient =
  base_url :: string
  client_timeout :: real
  is_closed :: bool

text \<open>
  A WebSocket connection: the frames received and not yet read by its iterator (each frame
  as \<open>json.loads\<close> sees it, \<open>None\<close> for a text that is no JSON), and whether it is closed.
\<close>

record WebSocket =
  uri :: string
  messages :: "pyval option list"
  closed :: bool

text \<open>A user callback returns (\<open>None\<close>) or raises.\<close>

type_synonym callback = "Entry \<Rightarrow> exn option"

text \<open>
  The coroutines that \<open>asyncio.create_task\<close> is given: \<open>listen()\<close> of a \<open>subscribe\<close> call,
  with its callback and the socket its \<open>async for\<close> iterates (none before its first step),
  and \<open>self._ws.close()\<close> of an \<open>unsubscribe\<close> call, with the socket it was called on.
\<close>

datatype coroutine = Listen callback "nat option" | Close nat

datatype task_status = Pending | Done | Cancelled | Failed exn

record task =
  coro :: coroutine
  status :: task_status
  must_cancel :: bool

text \<open>
  What a run does to the world outside the client, in order: a line printed, an httpx
  client created or closed, a request sent on an httpx client, a WebSocket opened, a
  \<open>close()\<close> run on a WebSocket, a frame read by a task from a socket, a callback invoked
  by a task (the callback is synchronous: the invocation includes its return).
\<close>

datatype event =
    Print string
  | HttpOpen nat
  | HttpClose nat
  | Sent nat request
  | WsOpen nat
  | WsClose nat
  | Recv nat nat
  | Invoke nat Entry

text \<open>
  The state of a run: the client object, the objects of httpx and websockets created so
  far, the tasks created so far, and the events so far.
\<close>

record state =
  self :: AIngleClient
  http_store :: "AsyncClient list"
  ws_store :: "WebSocket list"
  tasks :: "task list"
  trace :: "event list"

definition log :: "event \<Rightarrow> state \<Rightarrow> state" where
  "log ev st = st\<lparr>trace := trace st @ [ev]\<rparr>"

text \<open>\<open>AIngleClient.__init__\<close>, and the state of a program that has just constructed a client.\<close>

definition AIngleClient_init :: "string \<Rightarrow> string \<Rightarrow> real \<Rightarrow> bool \<Rightarrow> AIngleClient" where
  "AIngleClient_init nu wu t d =
     \<lparr>config = \<lparr>node_url = nu, ws_url = wu, timeout = t, debug = d\<rparr>,
      http_client = None, ws = None\<rparr>"

definition init_state :: "AIngleClient \<Rightarrow> state" where
  "init_state c = \<lparr>self = c, http_store = [], ws_store = [], tasks = [], trace = []\<rparr>"

subsection \<open>connect and disconnect\<close>

definition connect :: "state \<Rightarrow> state" where
  "connect st =
     (let c = config (self st);
          st1 = (if debug c then log (Print (''Connecting to '' @ node_url c)) st else st);
          h = length (http_store st1);
          st2 = log (HttpOpen h)
                 (st1\<lparr>http_store := http_store st1 @
                        [\<lparr>base_url = node_url c, client_timeout = timeout c, is_closed = False\<rparr>]\<rparr>)
      in st2\<lparr>self := (self st2)\<lparr>http_client := Some h\<rparr>\<rparr>)"

text \<open>\<open>AsyncClient.aclose()\<close> and \<open>WebSocketClientProtocol.close()\<close>: both may be repeated.\<close>

definition aclose :: "nat \<Rightarrow> state \<Rightarrow> state" where
  "aclose h st =
     log (HttpClose h)
       (st\<lparr>http_store := (http_store st)[h := (http_store st ! h)\<lparr>is_closed := True\<rparr>]\<rparr>)"

definition ws_close :: "nat \<Rightarrow> state \<Rightarrow> state" where
  "ws_close s st =
     log (WsClose s)
       (st\<lparr>ws_store := (ws_store st)[s := (ws_store st ! s)\<lparr>closed := True\<rparr>]\<rparr>)"

definition disconnect :: "state \<Rightarrow> state" where
  "disconnect st =
     (let st1 = (case http_client (self st) of
                   None \<Rightarrow> st
                 | Some h \<Rightarrow> (let st' = aclose h st
                             in st'\<lparr>self := (self st')\<lparr>http_client := None\<rparr>\<rparr>))
      in case ws (self st1) of
           None \<Rightarrow> st1
         | Some s \<Rightarrow> (let st' = ws_close s st1
                     in st'\<lparr>self := (self st')\<lparr>ws := None\<rparr>\<rparr>))"

text \<open>\<open>__aenter__\<close> and \<open>__aexit__\<close>.\<close>

definition aenter :: "state \<Rightarrow> state" where
  "aenter st = connect st"

definition aexit :: "state \<Rightarrow> state" where
  "aexit st = disconnect st"

subsection \<open>The HTTP operations\<close>

text \<open>
  httpx: a request on a client; a closed client refuses with \<open>RuntimeError\<close>, an open one
  sends the request and gives what the network gives.
\<close>

definition send :: "network \<Rightarrow> nat \<Rightarrow> request \<Rightarrow> state \<Rightarrow> (exn + response) \<times> state" where
  "send net h rq st =
     (if h < length (http_store st) \<and> \<not> is_closed (http_store st ! h)
      then (net rq, log (Sent h rq) st)
      else (Inl RuntimeError, st))"

text \<open>The three lines every operation starts with: the lazy connect and the assertion.\<close>

definition ensure_connected :: "state \<Rightarrow> state" where
  "ensure_connected st = (if http_client (self st) = None then connect st else st)"

definition entries_request :: "pyval \<Rightarrow> request" where
  "entries_request d =
     \<lparr>verb = POST, path = ''/api/v1/entries'', json = Some (PDict [(''data'', d)])\<rparr>"

definition entry_request :: "string \<Rightarrow> request" where
  "entry_request h = \<lparr>verb = GET, path = ''/api/v1/entries/'' @ h, json = None\<rparr>"

definition info_request :: request where
  "info_request = \<lparr>verb = GET, path = ''/api/v1/info'', json = None\<rparr>"

definition create_entry :: "network \<Rightarrow> pyval \<Rightarrow> state \<Rightarrow> (exn + pyval) \<times> state" where
  "create_entry net d st0 =
     (let st = ensure_connected st0
      in case http_client (self st) of
           None \<Rightarrow> (Inl AssertionError, st)
         | Some h \<Rightarrow>
             (case send net h (entries_request d) st of
                (Inl e, st') \<Rightarrow> (Inl e, st')
              | (Inr r, st') \<Rightarrow>
                  (case raise_for_status r of
                     Some e \<Rightarrow> (Inl e, st')
                   | None \<Rightarrow>
                       (case response_json r of
                          Inl e \<Rightarrow> (Inl e, st')
                        | Inr result \<Rightarrow> (subscript result ''hash'', st')))))"

definition get_entry :: "network \<Rightarrow> string \<Rightarrow> state \<Rightarrow> (exn + Entry option) \<times> state" where
  "get_entry net hsh st0 =
     (let st = ensure_connected st0
      in case http_client (self st) of
           None \<Rightarrow> (Inl AssertionError, st)
         | Some h \<Rightarrow>
             (case send net h (entry_request hsh) st of
                (Inl e, st') \<Rightarrow> (Inl e, st')
              | (Inr r, st') \<Rightarrow>
                  if status_code r = 404 then (Inr None, st')
                  else
                    (case raise_for_status r of
                       Some e \<Rightarrow> (Inl e, st')
                     | None \<Rightarrow>
                         (case response_json r of
                            Inl e \<Rightarrow> (Inl e, st')
                          | Inr v \<Rightarrow>
                              (case Entry_init v of
                                 Inl e \<Rightarrow> (Inl e, st')
                               | Inr entry \<Rightarrow> (Inr (Some entry), st'))))))"

definition get_node_info :: "network \<Rightarrow> state \<Rightarrow> (exn + NodeInfo) \<times> state" where
  "get_node_info net st0 =
     (let st = ensure_connected st0
      in case http_client (self st) of
           None \<Rightarrow> (Inl AssertionError, st)
         | Some h \<Rightarrow>
             (case send net h info_request st of
                (Inl e, st') \<Rightarrow> (Inl e, st')
              | (Inr r, st') \<Rightarrow>
                  (case raise_for_status r of
                     Some e \<Rightarrow> (Inl e, st')
                   | None \<Rightarrow>
                       (case response_json r of
                          Inl e \<Rightarrow> (Inl e, st')
                        | Inr v \<Rightarrow> (NodeInfo_init v, st')))))"

subsection \<open>subscribe, its listener and its unsubscribe handle\<close>

definition create_task :: "coroutine \<Rightarrow> state \<Rightarrow> state" where
  "create_task co st =
     st\<lparr>tasks := tasks st @ [\<lparr>coro = co, status = Pending, must_cancel = False\<rparr>]\<rparr>"

text \<open>
  \<open>subscribe\<close>: the first argument is the outcome of the handshake of
  \<open>websockets.connect\<close> (an exception, or none). The unsubscribe function returned is a
  closure over \<open>task\<close> and \<open>self\<close>: it is represented by the index of the task, and invoked
  by \<open>unsubscribe\<close> below.
\<close>

definition subscribe :: "exn option \<Rightarrow> callback \<Rightarrow> state \<Rightarrow> (exn + nat) \<times> state" where
  "subscribe handshake cb st =
     (case handshake of
        Some e \<Rightarrow> (Inl e, st)
      | None \<Rightarrow>
          (let s = length (ws_store st);
               st1 = log (WsOpen s)
                       (st\<lparr>ws_store := ws_store st @
                              [\<lparr>uri = ws_url (config (self st)), messages = [], closed = False\<rparr>]\<rparr>);
               st2 = st1\<lparr>self := (self st1)\<lparr>ws := Some s\<rparr>\<rparr>
           in (Inr (length (tasks st2)), create_task (Listen cb None) st2)))"

text \<open>\<open>task.cancel()\<close>: a request, which a task that is done ignores.\<close>

definition task_cancel :: "nat \<Rightarrow> state \<Rightarrow> state" where
  "task_cancel t st =
     (if t < length (tasks st) \<and> status (tasks st ! t) = Pending
      then st\<lparr>tasks := (tasks st)[t := (tasks st ! t)\<lparr>must_cancel := True\<rparr>]\<rparr>
      else st)"

definition unsubscribe :: "nat \<Rightarrow> state \<Rightarrow> state" where
  "unsubscribe t st =
     (let st1 = task_cancel t st
      in case ws (self st1) of
           None \<Rightarrow> st1
         | Some s \<Rightarrow> create_task (Close s) st1)"

definition set_status :: "nat \<Rightarrow> task_status \<Rightarrow> state \<Rightarrow> state" where
  "set_status t x st = st\<lparr>tasks := (tasks st)[t := (tasks st ! t)\<lparr>status := x\<rparr>]\<rparr>"

definition set_coro :: "nat \<Rightarrow> coroutine \<Rightarrow> state \<Rightarrow> state" where
  "set_coro t co st = st\<lparr>tasks := (tasks st)[t := (tasks st ! t)\<lparr>coro := co\<rparr>]\<rparr>"

definition pop_message :: "nat \<Rightarrow> state \<Rightarrow> state" where
  "pop_message s st =
     st\<lparr>ws_store := (ws_store st)[s := (ws_store st ! s)\<lparr>messages := tl (messages (ws_store st ! s))\<rparr>]\<rparr>"

text \<open>
  One turn of the body of \<open>listen()\<close> in task \<open>t\<close> on a frame \<open>m\<close> of socket \<open>s\<close>:
  \<open>json.loads\<close>, \<open>Entry(**entry_data)\<close>, \<open>callback(entry)\<close>. An exception of any of the
  three ends the task.
\<close>

definition on_message :: "nat \<Rightarrow> callback \<Rightarrow> nat \<Rightarrow> pyval option \<Rightarrow> state \<Rightarrow> state" where
  "on_message t cb s m st =
     (let st1 = log (Recv t s) (pop_message s st)
      in case m of
           None \<Rightarrow> set_status t (Failed JSONDecodeError) st1
         | Some entry_data \<Rightarrow>
             (case Entry_init entry_data of
                Inl e \<Rightarrow> set_status t (Failed e) st1
              | Inr entry \<Rightarrow>
                  (let st2 = log (Invoke t entry) st1
                   in case cb entry of
                        Some e \<Rightarrow> set_status t (Failed e) st2
                      | None \<Rightarrow> st2)))"

text \<open>
  The event loop resumes task \<open>t\<close> once. A task that is done stays as it is; a task whose
  cancellation was requested gets \<open>CancelledError\<close> where it waits (or before it starts)
  and is cancelled. Otherwise \<open>Close s\<close> closes its socket. \<open>listen()\<close> begins with the
  assertion and the evaluation of \<open>self._ws\<close>, whose iterator it keeps; after that each
  resumption reads the next frame of that socket, ends when the socket is closed and no
  frame is left, and keeps waiting when the socket is open and no frame has come.

  A resumption here handles one frame. The \<open>async for\<close> of the code does not suspend
  between two frames that are already buffered: it handles them in one go, which is a row
  of resumptions here with nothing between them. The handles are invoked by the program,
  between resumptions; a callback that invokes a handle itself is not expressed (a
  callback only returns or raises), and in the code such a request takes effect only when
  the listener next suspends, after the buffered frames were called back.
\<close>

definition step_task :: "nat \<Rightarrow> state \<Rightarrow> state" where
  "step_task t st =
     (if \<not> t < length (tasks st) then st
      else if status (tasks st ! t) \<noteq> Pending then st
      else if must_cancel (tasks st ! t) then set_status t Cancelled st
      else case coro (tasks st ! t) of
             Close s \<Rightarrow> set_status t Done (ws_close s st)
           | Listen cb None \<Rightarrow>
               (case ws (self st) of
                  None \<Rightarrow> set_status t (Failed AssertionError) st
                | Some s \<Rightarrow> set_coro t (Listen cb (Some s)) st)
           | Listen cb (Some s) \<Rightarrow>
               (if \<not> s < length (ws_store st) then st
                else case messages (ws_store st ! s) of
                       [] \<Rightarrow> if closed (ws_store st ! s) then set_status t Done st else st
                     | m # ms \<Rightarrow> on_message t cb s m st))"

fun run_task :: "nat \<Rightarrow> nat \<Rightarrow> state \<Rightarrow> state" where
  "run_task t 0 st = st"
| "run_task t (Suc n) st = run_task t n (step_task t st)"

text \<open>The node pushes a frame on an open socket.\<close>

definition deliver :: "nat \<Rightarrow> pyval option \<Rightarrow> state \<Rightarrow> state" where
  "deliver s m st =
     (if s < length (ws_store st) \<and> \<not> closed (ws_store st ! s)
      then st\<lparr>ws_store := (ws_store st)[s := (ws_store st ! s)\<lparr>messages := messages (ws_store st ! s) @ [m]\<rparr>]\<rparr>
      else st)"

subsection \<open>Programs\<close>

text \<open>
  A program is one coroutine that calls the methods of one client one after the other; no
  second coroutine of the user calls the client while a method waits. Each method runs as
  one transition; the resumptions of the tasks and the frames of the node come between
  the calls. A listener created by \<open>subscribe\<close> is resumed for the first time when the
  caller next suspends, so in a program its first \<open>Step\<close> stands right after the
  \<open>Subscribe\<close>.
\<close>

datatype action =
    Connect
  | Disconnect
  | CreateEntry network pyval
  | GetEntry network string
  | GetNodeInfo network
  | Subscribe "exn option" callback
  | Unsubscribe nat
  | Step nat
  | Deliver nat "pyval option"

fun do_action :: "action \<Rightarrow> state \<Rightarrow> state" where
  "do_action Connect st = connect st"
| "do_action Disconnect st = disconnect st"
| "do_action (CreateEntry net d) st = snd (create_entry net d st)"
| "do_action (GetEntry net h) st = snd (get_entry net h st)"
| "do_action (GetNodeInfo net) st = snd (get_node_info net st)"
| "do_action (Subscribe hs cb) st = snd (subscribe hs cb st)"
| "do_action (Unsubscribe t) st = unsubscribe t st"
| "do_action (Step t) st = step_task t st"
| "do_action (Deliver s m) st = deliver s m st"

fun run :: "action list \<Rightarrow> state \<Rightarrow> state" where
  "run [] st = st"
| "run (a # as) st = run as (do_action a st)"

section \<open>Notions the properties are stated with\<close>

text \<open>
  The HTTP handle of the client, when it has one, refers to an open client of the store.
  Every program keeps this (\<open>usable_run\<close> below).
\<close>

definition usable :: "state \<Rightarrow> bool" where
  "usable st =
     (case http_client (self st) of
        None \<Rightarrow> True
      | Some h \<Rightarrow> h < length (http_store st) \<and> \<not> is_closed (http_store st ! h))"

text \<open>What the client is connected to: the httpx client its handle refers to.\<close>

definition http_binding :: "state \<Rightarrow> AsyncClient option" where
  "http_binding st =
     (case http_client (self st) of
        None \<Rightarrow> None
      | Some h \<Rightarrow> if h < length (http_store st) then Some (http_store st ! h) else None)"

text \<open>The requests sent, in order.\<close>

fun sent_requests :: "event list \<Rightarrow> request list" where
  "sent_requests [] = []"
| "sent_requests (Sent h rq # evs) = rq # sent_requests evs"
| "sent_requests (ev # evs) = sent_requests evs"

text \<open>
  The socket \<open>_ws\<close> refers to, when it refers to one, is the one opened last. Every program
  keeps this (\<open>ws_latest_run\<close> below).
\<close>

definition ws_latest :: "state \<Rightarrow> bool" where
  "ws_latest st =
     (case ws (self st) of None \<Rightarrow> True | Some s \<Rightarrow> Suc s = length (ws_store st))"

text \<open>
  Task \<open>t\<close> is a listener with callback \<open>cb\<close> that iterates socket \<open>s\<close> and whose
  cancellation has not been requested.
\<close>

definition listening :: "nat \<Rightarrow> callback \<Rightarrow> nat \<Rightarrow> state \<Rightarrow> bool" where
  "listening t cb s st =
     (t < length (tasks st) \<and> s < length (ws_store st) \<and>
      coro (tasks st ! t) = Listen cb (Some s) \<and>
      status (tasks st ! t) = Pending \<and> \<not> must_cancel (tasks st ! t))"

text \<open>What task \<open>t\<close> does with one well-formed frame of socket \<open>s\<close>: it reads it, then calls back.\<close>

definition frame_events :: "nat \<Rightarrow> nat \<Rightarrow> (string \<times> pyval) list \<Rightarrow> event list" where
  "frame_events t s kw = [Recv t s, Invoke t (Entry_of kw)]"

text \<open>The entries the callback of task \<open>t\<close> was invoked with, in order.\<close>

fun invocations :: "nat \<Rightarrow> event list \<Rightarrow> Entry list" where
  "invocations t [] = []"
| "invocations t (Invoke t' e # evs) =
     (if t' = t then e # invocations t evs else invocations t evs)"
| "invocations t (ev # evs) = invocations t evs"

text \<open>How often \<open>close()\<close> ran on socket \<open>s\<close>.\<close>

fun close_calls :: "nat \<Rightarrow> event list \<Rightarrow> nat" where
  "close_calls s [] = 0"
| "close_calls s (WsClose s' # evs) = (if s' = s then Suc (close_calls s evs) else close_calls s evs)"
| "close_calls s (ev # evs) = close_calls s evs"

text \<open>The cancellation of task \<open>t\<close> was requested, or the task is done.\<close>

definition dead :: "nat \<Rightarrow> state \<Rightarrow> bool" where
  "dead t st =
     (t < length (tasks st) \<and> (must_cancel (tasks st ! t) \<or> status (tasks st ! t) \<noteq> Pending))"

text \<open>A task as \<open>asyncio.create_task\<close> leaves it.\<close>

definition pending_task :: "coroutine \<Rightarrow> task" where
  "pending_task co = \<lparr>coro = co, status = Pending, must_cancel = False\<rparr>"

section \<open>Sample inputs\<close>

text \<open>A client constructed with the default arguments of \<open>__init__\<close>.\<close>

definition default_client :: AIngleClient where
  "default_client = AIngleClient_init ''http://localhost:8080'' ''ws://localhost:8081'' 30 False"

text \<open>A 200 response with a JSON body.\<close>

definition ok_response :: "pyval \<Rightarrow> response" where
  "ok_response v = \<lparr>status_code = 200, body = Some v\<rparr>"

text \<open>The JSON object of an entry with all seven fields, and of a node information.\<close>

definition sample_entry :: "pyval \<Rightarrow> (string \<times> pyval) list" where
  "sample_entry h =
     [(''hash'', h), (''author'', PStr ''alice''), (''parents'', PList []),
      (''data'', PDict [(''t'', PInt 21)]), (''timestamp'', PInt 1700000000),
      (''sequence'', PInt 1), (''signature'', PStr ''sig'')]"

definition sample_info :: "(string \<times> pyval) list" where
  "sample_info =
     [(''node_id'', PStr ''n1''), (''version'', PStr ''0.1.0''), (''uptime'', PInt 60),
      (''entries_count'', PInt 2), (''peers_count'', PInt 0),
      (''storage_backend'', PStr ''sled''), (''features'', PList [PStr ''ws''])]"

text \<open>A node that answers each of the three requests as the interface describes.\<close>

definition sample_node :: network where
  "sample_node rq =
     (if verb rq = POST then Inr (ok_response (PDict [(''hash'', PStr ''QmA'')]))
      else if path rq = ''/api/v1/info'' then Inr (ok_response (PDict sample_info))
      else Inr (ok_response (PDict (sample_entry (PStr ''QmA'')))))"

text \<open>
  One subscription whose listener has started, and two frames pushed by the node: the
  entries with hash \<open>a\<close> and \<open>b\<close>.
\<close>

definition two_frames :: "action list" where
  "two_frames =
     [Subscribe None (\<lambda>e. None), Step 0,
      Deliver 0 (Some (PDict (sample_entry (PStr ''a'')))),
      Deliver 0 (Some (PDict (sample_entry (PStr ''b''))))]"

text \<open>Two subscriptions on one client, each listener resumed once after its \<open>subscribe\<close>.\<close>

definition two_subscriptions :: "action list" where
  "two_subscriptions =
     [Subscribe None (\<lambda>e. None), Step 0, Subscribe None (\<lambda>e. None), Step 1]"

text \<open>
  A subscription that is unsubscribed (listener cancelled, socket closed), followed by a
  second subscription on the same client.
\<close>

definition resubscribed :: "action list" where
  "resubscribed =
     [Subscribe None (\<lambda>e. None), Step 0, Unsubscribe 0, Step 0, Step 1,
      Subscribe None (\<lambda>e. None), Step 2]"

text \<open>
  One subscription with two frames received and not yet read, whose handle is invoked and
  whose listener is then resumed: its cancellation has completed.
\<close>

definition cancelled_with_frames :: "action list" where
  "cancelled_with_frames = two_frames @ [Unsubscribe 0, Step 0]"

section \<open>Properties\<close>

subsection \<open>connect and disconnect\<close>

lemma sent_requests_append: "sent_requests (xs @ ys) = sent_requests xs @ sent_requests ys"
  by (induction xs rule: sent_requests.induct) auto

lemma connect_self: "http_client (self (connect st)) = Some (length (http_store st))"
  by (simp add: connect_def Let_def log_def)

lemma connect_store:
  "http_store (connect st) =
     http_store st @
     [\<lparr>base_url = node_url (config (self st)), client_timeout = timeout (config (self st)),
       is_closed = False\<rparr>]"
  by (simp add: connect_def Let_def log_def)

lemma connect_frame:
  "ws (self (connect st)) = ws (self st)"
  "config (self (connect st)) = config (self st)"
  "ws_store (connect st) = ws_store st"
  "tasks (connect st) = tasks st"
  by (simp_all add: connect_def Let_def log_def)

lemma connect_sent: "sent_requests (trace (connect st)) = sent_requests (trace st)"
  by (simp add: connect_def Let_def log_def sent_requests_append)

lemma usable_connect: "usable (connect st)"
  by (simp add: usable_def connect_self connect_store)

lemma connect_trace:
  "trace (connect st) =
     trace st @
     (if debug (config (self st))
      then [Print (''Connecting to '' @ node_url (config (self st)))] else []) @
     [HttpOpen (length (http_store st))]"
  by (simp add: connect_def Let_def log_def)

lemma disconnect_after_connect:
  "http_store (disconnect (connect st)) =
     http_store st @
     [\<lparr>base_url = node_url (config (self st)), client_timeout = timeout (config (self st)),
       is_closed = True\<rparr>]"
  by (cases "ws (self st)")
     (simp_all add: disconnect_def connect_self connect_store connect_frame aclose_def
       ws_close_def log_def Let_def)

subsection \<open>The HTTP operations on a usable handle\<close>

lemma ensure_connected_cases:
  "usable st \<Longrightarrow>
   \<exists>h. http_client (self (ensure_connected st)) = Some h \<and>
       h < length (http_store (ensure_connected st)) \<and>
       \<not> is_closed (http_store (ensure_connected st) ! h)"
  by (auto simp: ensure_connected_def usable_def connect_self connect_store split: option.splits)

lemma ensure_connected_sent:
  "sent_requests (trace (ensure_connected st)) = sent_requests (trace st)"
  by (simp add: ensure_connected_def connect_sent)

lemma ensure_connected_connect:
  "http_client (self st) = None \<Longrightarrow> ensure_connected (connect st) = ensure_connected st"
  by (simp add: ensure_connected_def connect_self)

text \<open>What each operation comes to once the handle is known to be usable.\<close>

lemma create_entry_usable:
  assumes "usable st"
  shows "fst (create_entry net d st) =
           (case net (entries_request d) of
              Inl e \<Rightarrow> Inl e
            | Inr r \<Rightarrow>
                (case raise_for_status r of
                   Some e \<Rightarrow> Inl e
                 | None \<Rightarrow>
                     (case response_json r of
                        Inl e \<Rightarrow> Inl e
                      | Inr result \<Rightarrow> subscript result ''hash'')))"
proof -
  from ensure_connected_cases [OF assms] obtain h where
    "http_client (self (ensure_connected st)) = Some h"
    "h < length (http_store (ensure_connected st))"
    "\<not> is_closed (http_store (ensure_connected st) ! h)"
    by blast
  then show ?thesis
    by (simp add: create_entry_def Let_def send_def split: sum.splits option.splits)
qed

lemma create_entry_trace:
  assumes "usable st"
  shows "sent_requests (trace (snd (create_entry net d st))) =
           sent_requests (trace st) @ [entries_request d]"
proof -
  from ensure_connected_cases [OF assms] obtain h where
    "http_client (self (ensure_connected st)) = Some h"
    "h < length (http_store (ensure_connected st))"
    "\<not> is_closed (http_store (ensure_connected st) ! h)"
    by blast
  then show ?thesis
    by (simp add: create_entry_def Let_def send_def log_def sent_requests_append
        ensure_connected_sent split: sum.splits option.splits)
qed

lemma get_entry_usable:
  assumes "usable st"
  shows "fst (get_entry net hsh st) =
           (case net (entry_request hsh) of
              Inl e \<Rightarrow> Inl e
            | Inr r \<Rightarrow>
                if status_code r = 404 then Inr None
                else
                  (case raise_for_status r of
                     Some e \<Rightarrow> Inl e
                   | None \<Rightarrow>
                       (case response_json r of
                          Inl e \<Rightarrow> Inl e
                        | Inr v \<Rightarrow>
                            (case Entry_init v of
                               Inl e \<Rightarrow> Inl e
                             | Inr entry \<Rightarrow> Inr (Some entry)))))"
proof -
  from ensure_connected_cases [OF assms] obtain h where
    "http_client (self (ensure_connected st)) = Some h"
    "h < length (http_store (ensure_connected st))"
    "\<not> is_closed (http_store (ensure_connected st) ! h)"
    by blast
  then show ?thesis
    by (simp add: get_entry_def Let_def send_def split: sum.splits option.splits)
qed

lemma get_node_info_usable:
  assumes "usable st"
  shows "fst (get_node_info net st) =
           (case net info_request of
              Inl e \<Rightarrow> Inl e
            | Inr r \<Rightarrow>
                (case raise_for_status r of
                   Some e \<Rightarrow> Inl e
                 | None \<Rightarrow>
                     (case response_json r of
                        Inl e \<Rightarrow> Inl e
                      | Inr v \<Rightarrow> NodeInfo_init v)))"
proof -
  from ensure_connected_cases [OF assms] obtain h where
    "http_client (self (ensure_connected st)) = Some h"
    "h < length (http_store (ensure_connected st))"
    "\<not> is_closed (http_store (ensure_connected st) ! h)"
    by blast
  then show ?thesis
    by (simp add: get_node_info_def Let_def send_def split: sum.splits option.splits)
qed

lemma usable_init: "usable (init_state c) = (http_client c = None)"
  by (simp add: usable_def init_state_def split: option.splits)

lemma usable_default: "usable (init_state default_client)"
  by (simp add: usable_def init_state_def default_client_def AIngleClient_init_def)

lemma kwargs_bind_arg:
  "kwargs_bind names kw \<Longrightarrow> k \<in> set names \<Longrightarrow> map_of kw k = Some (arg kw k)"
proof -
  assume b: "kwargs_bind names kw" and m: "k \<in> set names"
  from b have "list_all (\<lambda>f. f \<in> set (map fst kw)) names"
    by (simp add: kwargs_bind_def)
  with m have "k \<in> fst ` set kw"
    by (auto simp: list_all_iff)
  then obtain v where "map_of kw k = Some v"
    by (metis map_of_eq_None_iff not_Some_eq)
  then show ?thesis by (simp add: arg_def)
qed

lemma sample_entry_binds: "kwargs_bind Entry_fields (sample_entry h)"
  by (simp add: kwargs_bind_def Entry_fields_def sample_entry_def)

lemma Entry_of_sample:
  "Entry_of (sample_entry h) =
     \<lparr>hash = h, author = PStr ''alice'', parents = PList [], data = PDict [(''t'', PInt 21)],
      timestamp = PInt 1700000000, sequence = PInt 1, signature = PStr ''sig''\<rparr>"
  by (simp add: Entry_of_def sample_entry_def arg_def)

lemma sample_info_binds: "kwargs_bind NodeInfo_fields sample_info"
  by (simp add: kwargs_bind_def NodeInfo_fields_def sample_info_def)

subsection \<open>What each transition leaves alone\<close>

lemmas prims = log_def set_status_def set_coro_def pop_message_def ws_close_def aclose_def
  create_task_def task_cancel_def

lemma on_message_frame:
  "self (on_message t cb s m st) = self st"
  "http_store (on_message t cb s m st) = http_store st"
  "length (ws_store (on_message t cb s m st)) = length (ws_store st)"
  "length (tasks (on_message t cb s m st)) = length (tasks st)"
  by (simp_all add: on_message_def prims Let_def split: option.splits sum.splits)

lemma step_task_frame:
  "self (step_task t st) = self st"
  "http_store (step_task t st) = http_store st"
  "length (ws_store (step_task t st)) = length (ws_store st)"
  "length (tasks (step_task t st)) = length (tasks st)"
  by (simp_all add: step_task_def on_message_frame prims Let_def
      split: coroutine.splits option.splits list.splits)

lemma unsubscribe_frame:
  "self (unsubscribe t st) = self st"
  "http_store (unsubscribe t st) = http_store st"
  "ws_store (unsubscribe t st) = ws_store st"
  "trace (unsubscribe t st) = trace st"
  by (simp_all add: unsubscribe_def prims Let_def split: option.splits)

lemma deliver_frame:
  "self (deliver s m st) = self st"
  "http_store (deliver s m st) = http_store st"
  "length (ws_store (deliver s m st)) = length (ws_store st)"
  "tasks (deliver s m st) = tasks st"
  "trace (deliver s m st) = trace st"
  by (simp_all add: deliver_def)

lemma subscribe_frame:
  "http_client (self (snd (subscribe hs cb st))) = http_client (self st)"
  "config (self (snd (subscribe hs cb st))) = config (self st)"
  "http_store (snd (subscribe hs cb st)) = http_store st"
  by (simp_all add: subscribe_def prims Let_def split: option.splits)

lemma disconnect_frame:
  "http_client (self (disconnect st)) = None"
  "ws (self (disconnect st)) = None"
  "length (ws_store (disconnect st)) = length (ws_store st)"
  "tasks (disconnect st) = tasks st"
  by (simp_all add: disconnect_def prims Let_def split: option.splits)

lemma ensure_connected_frame:
  "ws (self (ensure_connected st)) = ws (self st)"
  "ws_store (ensure_connected st) = ws_store st"
  "tasks (ensure_connected st) = tasks st"
  by (simp_all add: ensure_connected_def connect_frame)

lemma send_frame:
  "self (snd (send net h rq st)) = self st"
  "http_store (snd (send net h rq st)) = http_store st"
  "ws_store (snd (send net h rq st)) = ws_store st"
  "tasks (snd (send net h rq st)) = tasks st"
  by (simp_all add: send_def log_def)

lemma create_entry_state:
  "snd (create_entry net d st) =
     (case http_client (self (ensure_connected st)) of
        None \<Rightarrow> ensure_connected st
      | Some h \<Rightarrow> snd (send net h (entries_request d) (ensure_connected st)))"
  by (simp add: create_entry_def Let_def split: option.splits prod.splits sum.splits)

lemma get_entry_state:
  "snd (get_entry net hsh st) =
     (case http_client (self (ensure_connected st)) of
        None \<Rightarrow> ensure_connected st
      | Some h \<Rightarrow> snd (send net h (entry_request hsh) (ensure_connected st)))"
  by (simp add: get_entry_def Let_def split: option.splits prod.splits sum.splits)

lemma get_node_info_state:
  "snd (get_node_info net st) =
     (case http_client (self (ensure_connected st)) of
        None \<Rightarrow> ensure_connected st
      | Some h \<Rightarrow> snd (send net h info_request (ensure_connected st)))"
  by (simp add: get_node_info_def Let_def split: option.splits prod.splits sum.splits)

subsection \<open>Invariants of every program\<close>

lemma run_append: "run (xs @ ys) st = run ys (run xs st)"
  by (induction xs arbitrary: st) simp_all

lemma usable_step: "usable st \<Longrightarrow> usable (do_action a st)"
proof (cases a)
  case Connect
  then show ?thesis by (simp add: usable_connect)
next
  case Disconnect
  then show ?thesis by (simp add: usable_def disconnect_frame)
next
  case (CreateEntry net d)
  assume "usable st"
  then have "usable (ensure_connected st)" by (simp add: ensure_connected_def usable_connect)
  with CreateEntry show ?thesis
    by (simp add: create_entry_state usable_def send_frame split: option.splits)
next
  case (GetEntry net h)
  assume "usable st"
  then have "usable (ensure_connected st)" by (simp add: ensure_connected_def usable_connect)
  with GetEntry show ?thesis
    by (simp add: get_entry_state usable_def send_frame split: option.splits)
next
  case (GetNodeInfo net)
  assume "usable st"
  then have "usable (ensure_connected st)" by (simp add: ensure_connected_def usable_connect)
  with GetNodeInfo show ?thesis
    by (simp add: get_node_info_state usable_def send_frame split: option.splits)
next
  case (Subscribe hs cb)
  assume "usable st"
  with Subscribe show ?thesis by (simp add: usable_def subscribe_frame split: option.splits)
next
  case (Unsubscribe t)
  assume "usable st"
  with Unsubscribe show ?thesis by (simp add: usable_def unsubscribe_frame split: option.splits)
next
  case (Step t)
  assume "usable st"
  with Step show ?thesis by (simp add: usable_def step_task_frame split: option.splits)
next
  case (Deliver s m)
  assume "usable st"
  with Deliver show ?thesis by (simp add: usable_def deliver_frame split: option.splits)
qed

lemma usable_run: "usable st \<Longrightarrow> usable (run acts st)"
  by (induction acts arbitrary: st) (simp_all add: usable_step)

lemma ws_latest_step: "ws_latest st \<Longrightarrow> ws_latest (do_action a st)"
proof (cases a)
  case Connect
  assume "ws_latest st"
  with Connect show ?thesis by (simp add: ws_latest_def connect_frame split: option.splits)
next
  case Disconnect
  then show ?thesis by (simp add: ws_latest_def disconnect_frame)
next
  case (CreateEntry net d)
  assume "ws_latest st"
  with CreateEntry show ?thesis
    by (simp add: create_entry_state ws_latest_def send_frame ensure_connected_frame
        split: option.splits)
next
  case (GetEntry net h)
  assume "ws_latest st"
  with GetEntry show ?thesis
    by (simp add: get_entry_state ws_latest_def send_frame ensure_connected_frame
        split: option.splits)
next
  case (GetNodeInfo net)
  assume "ws_latest st"
  with GetNodeInfo show ?thesis
    by (simp add: get_node_info_state ws_latest_def send_frame ensure_connected_frame
        split: option.splits)
next
  case (Subscribe hs cb)
  assume "ws_latest st"
  with Subscribe show ?thesis
    by (cases hs) (simp_all add: ws_latest_def subscribe_def prims Let_def split: option.splits)
next
  case (Unsubscribe t)
  assume "ws_latest st"
  with Unsubscribe show ?thesis by (simp add: ws_latest_def unsubscribe_frame split: option.splits)
next
  case (Step t)
  assume "ws_latest st"
  with Step show ?thesis by (simp add: ws_latest_def step_task_frame split: option.splits)
next
  case (Deliver s m)
  assume "ws_latest st"
  with Deliver show ?thesis by (simp add: ws_latest_def deliver_frame split: option.splits)
qed

lemma ws_latest_run: "ws_latest st \<Longrightarrow> ws_latest (run acts st)"
  by (induction acts arbitrary: st) (simp_all add: ws_latest_step)

lemma ws_latest_init: "ws_latest (init_state (AIngleClient_init nu wu tm dbg))"
  by (simp add: ws_latest_def init_state_def AIngleClient_init_def)

subsection \<open>Listeners, cancellation and close\<close>

lemma invocations_append: "invocations t (xs @ ys) = invocations t xs @ invocations t ys"
  by (induction t xs rule: invocations.induct) auto

lemma close_calls_append: "close_calls s (xs @ ys) = close_calls s xs + close_calls s ys"
  by (induction s xs rule: close_calls.induct) auto

lemma step_task_frame_ok:
  assumes "listening t cb s st"
    and "messages (ws_store st ! s) = Some (PDict kw) # ms"
    and "kwargs_bind Entry_fields kw" and "cb (Entry_of kw) = None"
  shows "listening t cb s (step_task t st)"
    and "messages (ws_store (step_task t st) ! s) = ms"
    and "trace (step_task t st) = trace st @ frame_events t s kw"
  using assms
  by (simp_all add: listening_def step_task_def on_message_def frame_events_def prims Let_def)

lemma two_frames_state:
  "run two_frames (init_state default_client) =
     \<lparr>self = default_client\<lparr>ws := Some 0\<rparr>, http_store = [],
      ws_store = [\<lparr>uri = ''ws://localhost:8081'',
                   messages = [Some (PDict (sample_entry (PStr ''a''))),
                               Some (PDict (sample_entry (PStr ''b'')))],
                   closed = False\<rparr>],
      tasks = [\<lparr>coro = Listen (\<lambda>e. None) (Some 0), status = Pending, must_cancel = False\<rparr>],
      trace = [WsOpen 0]\<rparr>"
  by (simp add: two_frames_def init_state_def default_client_def AIngleClient_init_def
      subscribe_def step_task_def deliver_def prims Let_def)

lemma two_subscriptions_state:
  "run two_subscriptions (init_state default_client) =
     \<lparr>self = default_client\<lparr>ws := Some 1\<rparr>, http_store = [],
      ws_store = [\<lparr>uri = ''ws://localhost:8081'', messages = [], closed = False\<rparr>,
                  \<lparr>uri = ''ws://localhost:8081'', messages = [], closed = False\<rparr>],
      tasks = [\<lparr>coro = Listen (\<lambda>e. None) (Some 0), status = Pending, must_cancel = False\<rparr>,
               \<lparr>coro = Listen (\<lambda>e. None) (Some 1), status = Pending, must_cancel = False\<rparr>],
      trace = [WsOpen 0, WsOpen 1]\<rparr>"
  by (simp add: two_subscriptions_def init_state_def default_client_def AIngleClient_init_def
      subscribe_def step_task_def prims Let_def)

lemma resubscribed_state:
  "run resubscribed (init_state default_client) =
     \<lparr>self = default_client\<lparr>ws := Some 1\<rparr>, http_store = [],
      ws_store = [\<lparr>uri = ''ws://localhost:8081'', messages = [], closed = True\<rparr>,
                  \<lparr>uri = ''ws://localhost:8081'', messages = [], closed = False\<rparr>],
      tasks = [\<lparr>coro = Listen (\<lambda>e. None) (Some 0), status = Cancelled, must_cancel = True\<rparr>,
               \<lparr>coro = Close 0, status = Done, must_cancel = False\<rparr>,
               \<lparr>coro = Listen (\<lambda>e. None) (Some 1), status = Pending, must_cancel = False\<rparr>],
      trace = [WsOpen 0, WsClose 0, WsOpen 1]\<rparr>"
  by (simp add: resubscribed_def init_state_def default_client_def AIngleClient_init_def
      subscribe_def unsubscribe_def step_task_def prims Let_def)

lemma dead_create_task: "dead t st \<Longrightarrow> dead t (create_task co st)"
  by (simp add: dead_def create_task_def nth_append)

lemma dead_task_cancel: "dead t st \<Longrightarrow> dead t (task_cancel t' st)"
  by (cases "t' = t") (auto simp: dead_def task_cancel_def)

lemma dead_set_status_other: "dead t st \<Longrightarrow> t' \<noteq> t \<Longrightarrow> dead t (set_status t' x st)"
  by (simp add: dead_def set_status_def)

lemma dead_on_message: "dead t st \<Longrightarrow> t' \<noteq> t \<Longrightarrow> dead t (on_message t' cb s m st)"
  by (simp add: dead_def on_message_def prims Let_def split: option.splits sum.splits)

lemma on_message_invocations:
  "t' \<noteq> t \<Longrightarrow> invocations t (trace (on_message t' cb s m st)) = invocations t (trace st)"
  by (simp add: on_message_def prims Let_def invocations_append split: option.splits sum.splits)

lemma dead_step_task: "dead t st \<Longrightarrow> dead t (step_task t' st)"
proof (cases "t' = t")
  case True
  assume "dead t st"
  with True show ?thesis
    by (auto simp: dead_def step_task_def set_status_def)
next
  case False
  assume "dead t st"
  with False show ?thesis
    by (simp add: step_task_def dead_on_message dead_set_status_other
        split: coroutine.splits option.splits list.splits)
       (simp add: dead_def prims)
qed

lemma step_task_invocations:
  "dead t st \<Longrightarrow> invocations t (trace (step_task t' st)) = invocations t (trace st)"
proof (cases "t' = t")
  case True
  assume "dead t st"
  with True show ?thesis
    by (auto simp: dead_def step_task_def set_status_def)
next
  case False
  then show ?thesis
    by (simp add: step_task_def on_message_invocations prims invocations_append
        split: coroutine.splits option.splits list.splits)
qed

lemma send_trace:
  "invocations t (trace (snd (send net h rq st))) = invocations t (trace st)"
  "tasks (snd (send net h rq st)) = tasks st"
  by (simp_all add: send_def log_def invocations_append)

lemma ensure_connected_trace:
  "invocations t (trace (ensure_connected st)) = invocations t (trace st)"
  by (simp add: ensure_connected_def connect_def log_def Let_def invocations_append)

lemma dead_tasks_eq: "tasks st' = tasks st \<Longrightarrow> dead t st' = dead t st"
  by (simp add: dead_def)

lemma dead_do_action:
  assumes d: "dead t st"
  shows "dead t (do_action a st) \<and>
         invocations t (trace (do_action a st)) = invocations t (trace st)"
proof (cases a)
  case Connect
  with d show ?thesis
    by (simp add: dead_tasks_eq [OF connect_frame(4)])
       (simp add: connect_def log_def Let_def invocations_append)
next
  case Disconnect
  with d show ?thesis
    by (simp add: dead_tasks_eq [OF disconnect_frame(4)])
       (simp add: disconnect_def prims Let_def invocations_append split: option.splits)
next
  case (CreateEntry net x)
  with d show ?thesis
    by (simp add: create_entry_state dead_def send_trace ensure_connected_trace
        ensure_connected_frame split: option.splits)
next
  case (GetEntry net x)
  with d show ?thesis
    by (simp add: get_entry_state dead_def send_trace ensure_connected_trace
        ensure_connected_frame split: option.splits)
next
  case (GetNodeInfo net)
  with d show ?thesis
    by (simp add: get_node_info_state dead_def send_trace ensure_connected_trace
        ensure_connected_frame split: option.splits)
next
  case (Subscribe hs cb)
  with d show ?thesis
    by (cases hs) (simp_all add: subscribe_def dead_def prims Let_def nth_append invocations_append)
next
  case (Unsubscribe t')
  with d show ?thesis
    by (simp add: unsubscribe_frame)
       (simp add: unsubscribe_def Let_def dead_create_task dead_task_cancel split: option.splits)
next
  case (Step t')
  with d show ?thesis by (simp add: dead_step_task step_task_invocations)
next
  case (Deliver s m)
  with d show ?thesis
    by (simp add: deliver_frame dead_tasks_eq [OF deliver_frame(4)])
qed

lemma dead_run:
  "dead t st \<Longrightarrow> invocations t (trace (run acts st)) = invocations t (trace st)"
proof (induction acts arbitrary: st)
  case Nil
  show ?case by simp
next
  case (Cons a acts)
  from dead_do_action [OF Cons.prems, of a] Cons.IH [of "do_action a st"]
  show ?case by simp
qed

lemma dead_unsubscribe: "t < length (tasks st) \<Longrightarrow> dead t (unsubscribe t st)"
  by (auto simp: dead_def unsubscribe_def prims Let_def nth_append split: option.splits)

lemma task_cancel_dead: "dead t st \<Longrightarrow> task_cancel t st = st"
proof -
  assume d: "dead t st"
  show ?thesis
  proof (cases "status (tasks st ! t) = Pending")
    case False
    then show ?thesis by (simp add: task_cancel_def)
  next
    case True
    with d have m: "must_cancel (tasks st ! t)" by (simp add: dead_def)
    have "(tasks st ! t)\<lparr>must_cancel := True\<rparr> = tasks st ! t"
      using m by simp
    then show ?thesis by (simp add: task_cancel_def)
  qed
qed

lemma dead_run_dead: "dead t st \<Longrightarrow> dead t (run acts st)"
proof (induction acts arbitrary: st)
  case Nil
  then show ?case by simp
next
  case (Cons a acts)
  from dead_do_action [OF Cons.prems, of a] have "dead t (do_action a st)" by simp
  from Cons.IH [OF this] show ?case by simp
qed

lemma unsubscribe_dead:
  "dead t st \<Longrightarrow>
   unsubscribe t st = (case ws (self st) of None \<Rightarrow> st | Some s \<Rightarrow> create_task (Close s) st)"
  by (simp add: unsubscribe_def Let_def task_cancel_dead)

lemma cancelled_with_frames_state:
  "run cancelled_with_frames (init_state default_client) =
     \<lparr>self = default_client\<lparr>ws := Some 0\<rparr>, http_store = [],
      ws_store = [\<lparr>uri = ''ws://localhost:8081'',
                   messages = [Some (PDict (sample_entry (PStr ''a''))),
                               Some (PDict (sample_entry (PStr ''b'')))],
                   closed = False\<rparr>],
      tasks = [\<lparr>coro = Listen (\<lambda>e. None) (Some 0), status = Cancelled, must_cancel = True\<rparr>,
               \<lparr>coro = Close 0, status = Pending, must_cancel = False\<rparr>],
      trace = [WsOpen 0]\<rparr>"
  by (simp add: cancelled_with_frames_def run_append two_frames_state)
     (simp add: default_client_def AIngleClient_init_def unsubscribe_def step_task_def prims)

lemma close_task_runs:
  "ws (self st) = Some s \<Longrightarrow>
   step_task (length (tasks st)) (unsubscribe t st) =
     set_status (length (tasks st)) Done (ws_close s (unsubscribe t st))"
  by (simp add: step_task_def unsubscribe_def Let_def task_cancel_def create_task_def nth_append)

lemma disconnect_trace:
  "close_calls s (trace (disconnect st)) =
     close_calls s (trace st) + (if ws (self st) = Some s then 1 else 0)"
  by (simp add: disconnect_def prims Let_def close_calls_append split: option.splits)

lemma disconnect_other_socket:
  "ws (self st) \<noteq> Some s \<Longrightarrow> ws_store (disconnect st) ! s = ws_store st ! s"
  by (auto simp: disconnect_def prims Let_def split: option.splits)

subsection \<open>Errors of the HTTP operations\<close>

text \<open>
  C1 (as amended). No operation of the facade wraps or maps a failure: on a usable handle,
  an exception of the transport (a timeout, a refused connection) leaves \<open>create_entry\<close>,
  \<open>get_entry\<close> and \<open>get_node_info\<close> as the very exception httpx raised, and a response
  with a status outside 2xx (for \<open>get_entry\<close>: other than 404) leaves them as the
  \<open>HTTPStatusError\<close> of \<open>raise_for_status\<close> with that status, so 500 and 401 alike. No
  \<open>AIngleError\<close> and no error kind is involved.
\<close>

theorem errors_propagate_unwrapped:
  "usable st \<longrightarrow>
     (net (entries_request d) = Inl e \<longrightarrow> fst (create_entry net d st) = Inl e) \<and>
     (net (entries_request d) = Inr r \<and> \<not> is_success r \<longrightarrow>
        fst (create_entry net d st) = Inl (HTTPStatusError (status_code r))) \<and>
     (net (entry_request hsh) = Inl e \<longrightarrow> fst (get_entry net hsh st) = Inl e) \<and>
     (net (entry_request hsh) = Inr r \<and> \<not> is_success r \<and> status_code r \<noteq> 404 \<longrightarrow>
        fst (get_entry net hsh st) = Inl (HTTPStatusError (status_code r))) \<and>
     (net info_request = Inl e \<longrightarrow> fst (get_node_info net st) = Inl e) \<and>
     (net info_request = Inr r \<and> \<not> is_success r \<longrightarrow>
        fst (get_node_info net st) = Inl (HTTPStatusError (status_code r)))"
  by (simp add: create_entry_usable get_entry_usable get_node_info_usable raise_for_status_def)

theorem errors_propagate_unwrapped_witness:
  "usable (init_state default_client) \<and>
   fst (create_entry (\<lambda>rq. Inl TimeoutException) (PStr ''x'') (init_state default_client)) =
     Inl TimeoutException \<and>
   fst (get_entry (\<lambda>rq. Inl ConnectError) ''abc'' (init_state default_client)) =
     Inl ConnectError \<and>
   \<not> is_success \<lparr>status_code = 500, body = None\<rparr> \<and>
   fst (get_node_info (\<lambda>rq. Inr \<lparr>status_code = 500, body = None\<rparr>) (init_state default_client)) =
     Inl (HTTPStatusError 500) \<and>
   \<not> is_success \<lparr>status_code = 401, body = None\<rparr> \<and>
   fst (create_entry (\<lambda>rq. Inr \<lparr>status_code = 401, body = None\<rparr>) (PStr ''x'')
          (init_state default_client)) = Inl (HTTPStatusError 401)"
  using errors_propagate_unwrapped
          [of "init_state default_client" "\<lambda>rq. Inl TimeoutException" "PStr ''x''" TimeoutException]
        errors_propagate_unwrapped
          [of "init_state default_client" "\<lambda>rq. Inl ConnectError" _ ConnectError _ "''abc''"]
        errors_propagate_unwrapped
          [of "init_state default_client" "\<lambda>rq. Inr \<lparr>status_code = 500, body = None\<rparr>" _ _
              "\<lparr>status_code = 500, body = None\<rparr>"]
        errors_propagate_unwrapped
          [of "init_state default_client" "\<lambda>rq. Inr \<lparr>status_code = 401, body = None\<rparr>" "PStr ''x''" _
              "\<lparr>status_code = 401, body = None\<rparr>"]
        usable_default
  by (simp add: is_success_def)

text \<open>
  C1 as stated fails: a request that times out raises httpx's \<open>TimeoutException\<close>, which
  carries no kind \<open>TIMEOUT\<close>.
\<close>

theorem timeout_kind_counterexample:
  "fst (create_entry (\<lambda>rq. Inl TimeoutException) (PStr ''x'') (init_state default_client)) =
     Inl TimeoutException \<and>
   raised_code (fst (create_entry (\<lambda>rq. Inl TimeoutException) (PStr ''x'')
                      (init_state default_client))) \<noteq> Some TIMEOUT"
  by (simp add: create_entry_usable [OF usable_default])

subsection \<open>create_entry\<close>

text \<open>
  C2 (as amended). On a usable handle \<open>create_entry(data)\<close> sends exactly one request, the
  POST to \<open>/api/v1/entries\<close> with the body \<open>{"data": data}\<close>; on a 2xx response whose body
  is a JSON object it returns the value of the key \<open>hash\<close> unchanged, and raises the builtin
  \<open>KeyError\<close> when the object has no such key.
\<close>

theorem create_entry_contract:
  "usable st \<longrightarrow>
     sent_requests (trace (snd (create_entry net d st))) =
       sent_requests (trace st) @ [entries_request d] \<and>
     (net (entries_request d) = Inr r \<and> is_success r \<and> body r = Some (PDict kw) \<longrightarrow>
        fst (create_entry net d st) =
          (case map_of kw ''hash'' of Some v \<Rightarrow> Inr v | None \<Rightarrow> Inl (KeyError ''hash'')))"
  by (simp add: create_entry_usable create_entry_trace raise_for_status_def response_json_def)

theorem create_entry_contract_witness:
  "usable (init_state default_client) \<and>
   is_success (ok_response (PDict [(''hash'', PStr ''QmA'')])) \<and>
   sent_requests (trace (snd (create_entry (\<lambda>rq. Inr (ok_response (PDict [(''hash'', PStr ''QmA'')])))
                                (PInt 7) (init_state default_client)))) =
     [\<lparr>verb = POST, path = ''/api/v1/entries'', json = Some (PDict [(''data'', PInt 7)])\<rparr>] \<and>
   fst (create_entry (\<lambda>rq. Inr (ok_response (PDict [(''hash'', PStr ''QmA'')])))
          (PInt 7) (init_state default_client)) = Inr (PStr ''QmA'')"
  using create_entry_contract
          [of "init_state default_client" "\<lambda>rq. Inr (ok_response (PDict [(''hash'', PStr ''QmA'')]))"
              "PInt 7" "ok_response (PDict [(''hash'', PStr ''QmA'')])" "[(''hash'', PStr ''QmA'')]"]
        usable_default
  by (simp add: is_success_def ok_response_def entries_request_def init_state_def)

text \<open>
  C2 as stated fails: for a 200 response with the body \<open>{}\<close> the error raised is
  \<open>KeyError\<close>, not an error of kind \<open>INVALID_ENTRY\<close>.
\<close>

theorem missing_hash_counterexample:
  "fst (create_entry (\<lambda>rq. Inr (ok_response (PDict []))) (PInt 7) (init_state default_client)) =
     Inl (KeyError ''hash'') \<and>
   raised_code (fst (create_entry (\<lambda>rq. Inr (ok_response (PDict []))) (PInt 7)
                       (init_state default_client))) \<noteq> Some INVALID_ENTRY"
  by (simp add: create_entry_usable [OF usable_default] ok_response_def raise_for_status_def
      is_success_def response_json_def)

subsection \<open>get_entry\<close>

text \<open>
  C3 (as amended). On a usable handle \<open>get_entry(hash)\<close> returns \<open>None\<close> exactly when the
  node answers 404. On a 2xx response whose body is a JSON object, it returns an \<open>Entry\<close>
  when the keys of the object are exactly the seven field names and raises the builtin
  \<open>TypeError\<close> otherwise; each field of the returned entry is the value of its key in the
  body, of whatever type that value is.
\<close>

theorem get_entry_contract:
  "usable st \<longrightarrow>
     (fst (get_entry net hsh st) = Inr None \<longleftrightarrow>
        (\<exists>r. net (entry_request hsh) = Inr r \<and> status_code r = 404)) \<and>
     (net (entry_request hsh) = Inr r \<and> is_success r \<and> body r = Some (PDict kw) \<longrightarrow>
        fst (get_entry net hsh st) =
          (if kwargs_bind Entry_fields kw then Inr (Some (Entry_of kw)) else Inl TypeError)) \<and>
     (kwargs_bind Entry_fields kw \<longrightarrow>
        map_of kw ''hash'' = Some (hash (Entry_of kw)) \<and>
        map_of kw ''author'' = Some (author (Entry_of kw)) \<and>
        map_of kw ''parents'' = Some (parents (Entry_of kw)) \<and>
        map_of kw ''data'' = Some (data (Entry_of kw)) \<and>
        map_of kw ''timestamp'' = Some (timestamp (Entry_of kw)) \<and>
        map_of kw ''sequence'' = Some (sequence (Entry_of kw)) \<and>
        map_of kw ''signature'' = Some (signature (Entry_of kw)) \<and>
        set (map fst kw) = set Entry_fields)"
proof (intro impI conjI)
  assume u: "usable st"
  show "fst (get_entry net hsh st) = Inr None \<longleftrightarrow>
        (\<exists>r. net (entry_request hsh) = Inr r \<and> status_code r = 404)"
    by (auto simp: get_entry_usable [OF u] raise_for_status_def split: sum.splits option.splits)
next
  assume u: "usable st"
    and r: "net (entry_request hsh) = Inr r \<and> is_success r \<and> body r = Some (PDict kw)"
  then have "status_code r \<noteq> 404" by (auto simp: is_success_def)
  with r show "fst (get_entry net hsh st) =
          (if kwargs_bind Entry_fields kw then Inr (Some (Entry_of kw)) else Inl TypeError)"
    by (simp add: get_entry_usable [OF u] raise_for_status_def response_json_def)
next
  assume b: "kwargs_bind Entry_fields kw"
  show "set (map fst kw) = set Entry_fields"
    using b by (auto simp: kwargs_bind_def list_all_iff)
qed (simp_all add: kwargs_bind_arg [of Entry_fields] Entry_of_def Entry_fields_def)

theorem get_entry_contract_witness:
  "usable (init_state default_client) \<and>
   fst (get_entry (\<lambda>rq. Inr \<lparr>status_code = 404, body = None\<rparr>) ''QmA''
          (init_state default_client)) = Inr None \<and>
   is_success (ok_response (PDict (sample_entry (PStr ''QmA'')))) \<and>
   kwargs_bind Entry_fields (sample_entry (PStr ''QmA'')) \<and>
   fst (get_entry (\<lambda>rq. Inr (ok_response (PDict (sample_entry (PStr ''QmA''))))) ''QmA''
          (init_state default_client)) =
     Inr (Some \<lparr>hash = PStr ''QmA'', author = PStr ''alice'', parents = PList [],
                data = PDict [(''t'', PInt 21)], timestamp = PInt 1700000000,
                sequence = PInt 1, signature = PStr ''sig''\<rparr>)"
  using get_entry_contract
          [of "init_state default_client" "\<lambda>rq. Inr \<lparr>status_code = 404, body = None\<rparr>" "''QmA''"]
        get_entry_contract
          [of "init_state default_client"
              "\<lambda>rq. Inr (ok_response (PDict (sample_entry (PStr ''QmA''))))" "''QmA''"
              "ok_response (PDict (sample_entry (PStr ''QmA'')))" "sample_entry (PStr ''QmA'')"]
        usable_default sample_entry_binds [of "PStr ''QmA''"]
  by (simp add: is_success_def ok_response_def Entry_of_sample)

text \<open>
  C3 as stated fails: a 200 body whose \<open>hash\<close> is the number 5 is no failure; the entry is
  returned with that number as its hash.
\<close>

theorem mistyped_entry_counterexample:
  "fst (get_entry (\<lambda>rq. Inr (ok_response (PDict (sample_entry (PInt 5))))) ''QmA''
          (init_state default_client)) =
     Inr (Some \<lparr>hash = PInt 5, author = PStr ''alice'', parents = PList [],
                data = PDict [(''t'', PInt 21)], timestamp = PInt 1700000000,
                sequence = PInt 1, signature = PStr ''sig''\<rparr>)"
  by (simp add: get_entry_usable [OF usable_default] ok_response_def raise_for_status_def
      is_success_def response_json_def sample_entry_binds Entry_of_sample)

subsection \<open>The lazy connect\<close>

text \<open>
  C4. On a client without HTTP handle each of \<open>create_entry\<close>, \<open>get_entry\<close> and
  \<open>get_node_info\<close> does what it does after an explicit \<open>connect()\<close>, and when the node
  answers the request with a 2xx response of the expected shape, the operation returns its
  result.
\<close>

theorem lazy_connect:
  "http_client (self st) = None \<longrightarrow>
     create_entry net d st = create_entry net d (connect st) \<and>
     get_entry net hsh st = get_entry net hsh (connect st) \<and>
     get_node_info net st = get_node_info net (connect st) \<and>
     (net (entries_request d) = Inr r1 \<and> is_success r1 \<and> body r1 = Some (PDict kw1) \<and>
      map_of kw1 ''hash'' = Some v \<longrightarrow>
        fst (create_entry net d st) = Inr v) \<and>
     (net (entry_request hsh) = Inr r2 \<and> is_success r2 \<and> body r2 = Some (PDict kw2) \<and>
      kwargs_bind Entry_fields kw2 \<longrightarrow>
        fst (get_entry net hsh st) = Inr (Some (Entry_of kw2))) \<and>
     (net info_request = Inr r3 \<and> is_success r3 \<and> body r3 = Some (PDict kw3) \<and>
      kwargs_bind NodeInfo_fields kw3 \<longrightarrow>
        fst (get_node_info net st) = Inr (NodeInfo_of kw3))"
proof (intro impI conjI)
  assume n: "http_client (self st) = None"
  then have u: "usable st" by (simp add: usable_def)
  from n have e: "ensure_connected (connect st) = ensure_connected st"
    by (rule ensure_connected_connect)
  show "create_entry net d st = create_entry net d (connect st)"
    by (simp add: create_entry_def e)
  show "get_entry net hsh st = get_entry net hsh (connect st)"
    by (simp add: get_entry_def e)
  show "get_node_info net st = get_node_info net (connect st)"
    by (simp add: get_node_info_def e)
  {
    assume "net (entries_request d) = Inr r1 \<and> is_success r1 \<and> body r1 = Some (PDict kw1) \<and>
      map_of kw1 ''hash'' = Some v"
    then show "fst (create_entry net d st) = Inr v"
      by (simp add: create_entry_usable [OF u] raise_for_status_def response_json_def)
  }
  {
    assume a: "net (entry_request hsh) = Inr r2 \<and> is_success r2 \<and> body r2 = Some (PDict kw2) \<and>
      kwargs_bind Entry_fields kw2"
    then have "status_code r2 \<noteq> 404" by (auto simp: is_success_def)
    with a show "fst (get_entry net hsh st) = Inr (Some (Entry_of kw2))"
      by (simp add: get_entry_usable [OF u] raise_for_status_def response_json_def)
  }
  {
    assume "net info_request = Inr r3 \<and> is_success r3 \<and> body r3 = Some (PDict kw3) \<and>
      kwargs_bind NodeInfo_fields kw3"
    then show "fst (get_node_info net st) = Inr (NodeInfo_of kw3)"
      by (simp add: get_node_info_usable [OF u] raise_for_status_def response_json_def)
  }
qed

theorem lazy_connect_witness:
  "http_client (self (init_state default_client)) = None \<and>
   create_entry sample_node (PInt 7) (init_state default_client) =
     create_entry sample_node (PInt 7) (connect (init_state default_client)) \<and>
   fst (create_entry sample_node (PInt 7) (init_state default_client)) = Inr (PStr ''QmA'') \<and>
   fst (get_entry sample_node ''QmA'' (init_state default_client)) =
     Inr (Some (Entry_of (sample_entry (PStr ''QmA'')))) \<and>
   fst (get_node_info sample_node (init_state default_client)) = Inr (NodeInfo_of sample_info)"
proof -
  have n: "http_client (self (init_state default_client)) = None"
    by (simp add: init_state_def default_client_def AIngleClient_init_def)
  have r: "sample_node (entries_request (PInt 7)) = Inr (ok_response (PDict [(''hash'', PStr ''QmA'')]))"
    "sample_node (entry_request ''QmA'') = Inr (ok_response (PDict (sample_entry (PStr ''QmA''))))"
    "sample_node info_request = Inr (ok_response (PDict sample_info))"
    by (simp_all add: sample_node_def entries_request_def entry_request_def info_request_def)
  have s: "is_success (ok_response x)" "body (ok_response x) = Some x" for x
    by (simp_all add: is_success_def ok_response_def)
  have m: "map_of [(''hash'', PStr ''QmA'')] ''hash'' = Some (PStr ''QmA'')"
    by simp
  show ?thesis
    using lazy_connect
            [of "init_state default_client" sample_node "PInt 7" "''QmA''"
                "ok_response (PDict [(''hash'', PStr ''QmA'')])" "[(''hash'', PStr ''QmA'')]"
                "PStr ''QmA''"
                "ok_response (PDict (sample_entry (PStr ''QmA'')))" "sample_entry (PStr ''QmA'')"
                "ok_response (PDict sample_info)" sample_info]
          n r s m sample_entry_binds [of "PStr ''QmA''"] sample_info_binds
    by blast
qed

subsection \<open>The connection life cycle\<close>

text \<open>
  C7 (as amended). \<open>connect()\<close> has no failing branch, connected or not. Every call
  creates a new httpx client with \<open>base_url = node_url\<close> and the configured timeout,
  stores it in \<open>_http_client\<close>, logs the creation (and prints first when \<open>debug\<close> is set)
  and changes nothing else. So after a second \<open>connect()\<close> the client is bound as after
  the first, but to a second httpx client, and the first one is still open: a following
  \<open>disconnect()\<close> closes the second only.
\<close>

theorem connect_creates_new_client:
  "http_client (self (connect st)) = Some (length (http_store st)) \<and>
   http_store (connect st) =
     http_store st @
     [\<lparr>base_url = node_url (config (self st)), client_timeout = timeout (config (self st)),
       is_closed = False\<rparr>] \<and>
   ws (self (connect st)) = ws (self st) \<and>
   config (self (connect st)) = config (self st) \<and>
   ws_store (connect st) = ws_store st \<and>
   tasks (connect st) = tasks st \<and>
   trace (connect st) =
     trace st @
     (if debug (config (self st))
      then [Print (''Connecting to '' @ node_url (config (self st)))] else []) @
     [HttpOpen (length (http_store st))] \<and>
   http_binding (connect (connect st)) = http_binding (connect st) \<and>
   http_client (self (connect (connect st))) = Some (Suc (length (http_store st))) \<and>
   http_store (disconnect (connect (connect st))) =
     http_store st @
     [\<lparr>base_url = node_url (config (self st)), client_timeout = timeout (config (self st)),
       is_closed = False\<rparr>,
      \<lparr>base_url = node_url (config (self st)), client_timeout = timeout (config (self st)),
       is_closed = True\<rparr>]"
  by (simp add: connect_self connect_store connect_frame connect_trace http_binding_def
      nth_append disconnect_after_connect)

text \<open>
  C7 as stated fails: \<open>connect()\<close> is not idempotent. On a fresh client with the default
  arguments a second \<open>connect()\<close> gives another state than the first: a new handle, two
  open httpx clients, of which \<open>disconnect()\<close> closes only the second.
\<close>

theorem connect_twice_counterexample:
  "connect (connect (init_state default_client)) \<noteq> connect (init_state default_client) \<and>
   http_client (self (connect (init_state default_client))) = Some 0 \<and>
   http_client (self (connect (connect (init_state default_client)))) = Some 1 \<and>
   map is_closed (http_store (connect (init_state default_client))) = [False] \<and>
   map is_closed (http_store (connect (connect (init_state default_client)))) = [False, False] \<and>
   map is_closed (http_store (disconnect (connect (connect (init_state default_client))))) =
     [False, True]"
proof -
  have "http_client (self (connect (connect (init_state default_client)))) \<noteq>
        http_client (self (connect (init_state default_client)))"
    by (simp add: connect_self connect_store init_state_def)
  then have "connect (connect (init_state default_client)) \<noteq> connect (init_state default_client)"
    by auto
  then show ?thesis
    by (simp add: connect_self connect_store disconnect_after_connect init_state_def)
qed

text \<open>
  C6. A second \<open>disconnect()\<close> changes nothing at all; after any \<open>disconnect()\<close> the client
  object equals a freshly constructed one with the same configuration (both handles are
  \<open>None\<close>); and the HTTP client and the WebSocket the handles referred to are closed.
\<close>

theorem disconnect_idempotent:
  "disconnect (disconnect st) = disconnect st \<and>
   self (disconnect st) =
     AIngleClient_init (node_url (config (self st))) (ws_url (config (self st)))
       (timeout (config (self st))) (debug (config (self st))) \<and>
   (http_client (self st) = Some h \<and> h < length (http_store st) \<longrightarrow>
      is_closed (http_store (disconnect st) ! h)) \<and>
   (ws (self st) = Some s \<and> s < length (ws_store st) \<longrightarrow>
      closed (ws_store (disconnect st) ! s))"
  by (cases "http_client (self st)"; cases "ws (self st)")
     (simp_all add: disconnect_def aclose_def ws_close_def log_def Let_def AIngleClient_init_def)

theorem disconnect_idempotent_witness:
  "http_client (self (run [Connect, Subscribe None (\<lambda>e. None)] (init_state default_client))) = Some 0 \<and>
   ws (self (run [Connect, Subscribe None (\<lambda>e. None)] (init_state default_client))) = Some 0 \<and>
   is_closed (http_store (disconnect (run [Connect, Subscribe None (\<lambda>e. None)]
                                        (init_state default_client))) ! 0) \<and>
   closed (ws_store (disconnect (run [Connect, Subscribe None (\<lambda>e. None)]
                                   (init_state default_client))) ! 0) \<and>
   self (disconnect (run [Connect, Subscribe None (\<lambda>e. None)] (init_state default_client))) =
     default_client"
proof -
  define st where "st = run [Connect, Subscribe None (\<lambda>e. None)] (init_state default_client)"
  have h: "http_client (self st) = Some 0" "0 < length (http_store st)"
    and s: "ws (self st) = Some 0" "0 < length (ws_store st)"
    and c: "config (self st) = config default_client"
    by (simp_all add: st_def init_state_def default_client_def AIngleClient_init_def connect_def
        subscribe_def create_task_def log_def Let_def)
  have d: "AIngleClient_init (node_url (config default_client)) (ws_url (config default_client))
             (timeout (config default_client)) (debug (config default_client)) = default_client"
    by (simp add: default_client_def AIngleClient_init_def)
  from disconnect_idempotent [of st 0 0] h s have
    "self (disconnect st) =
       AIngleClient_init (node_url (config (self st))) (ws_url (config (self st)))
         (timeout (config (self st))) (debug (config (self st)))"
    "is_closed (http_store (disconnect st) ! 0)" "closed (ws_store (disconnect st) ! 0)"
    by blast+
  with h s c d show ?thesis
    unfolding st_def by simp
qed

subsection \<open>Subscriptions\<close>

text \<open>
  C5 (as amended). A successful \<open>subscribe\<close> opens one new WebSocket connection, stores it
  in the one field \<open>_ws\<close> of the client and starts exactly one listener task, which
  iterates that connection when it is resumed first, right after the call. An unsubscribe
  handle cancels its own task and requests the closure of whatever socket \<open>_ws\<close> holds
  when the handle is invoked: the socket opened last, not the one of its subscription.
\<close>

theorem subscribe_one_listener_shared_ws:
  "fst (subscribe None cb st) = Inr (length (tasks st)) \<and>
   tasks (snd (subscribe None cb st)) = tasks st @ [pending_task (Listen cb None)] \<and>
   ws_store (snd (subscribe None cb st)) =
     ws_store st @ [\<lparr>uri = ws_url (config (self st)), messages = [], closed = False\<rparr>] \<and>
   ws (self (snd (subscribe None cb st))) = Some (length (ws_store st)) \<and>
   coro (tasks (step_task (length (tasks st)) (snd (subscribe None cb st))) ! length (tasks st)) =
     Listen cb (Some (length (ws_store st))) \<and>
   tasks (unsubscribe t st) =
     tasks (task_cancel t st) @
     (case ws (self st) of None \<Rightarrow> [] | Some s \<Rightarrow> [pending_task (Close s)])"
  by (simp add: subscribe_def unsubscribe_def step_task_def pending_task_def prims Let_def
      nth_append split: option.splits)

text \<open>
  C5 as stated fails: with two subscriptions, each listening on its own socket, the handle
  of the first one closes the socket of the second. The second listener ends, the socket
  of the first stays open.
\<close>

theorem first_handle_closes_second_socket_counterexample:
  "listening 0 (\<lambda>e. None) 0 (run two_subscriptions (init_state default_client)) \<and>
   listening 1 (\<lambda>e. None) 1 (run two_subscriptions (init_state default_client)) \<and>
   map closed (ws_store (run (two_subscriptions @ [Unsubscribe 0, Step 2, Step 1, Step 0])
                            (init_state default_client))) = [False, True] \<and>
   map status (tasks (run (two_subscriptions @ [Unsubscribe 0, Step 2, Step 1, Step 0])
                         (init_state default_client))) = [Cancelled, Done, Done]"
  by (simp add: run_append two_subscriptions_state listening_def)
     (simp add: default_client_def AIngleClient_init_def unsubscribe_def step_task_def prims)

text \<open>
  C8. A listener that iterates socket \<open>s\<close> handles the frames in the order in which they
  arrived, one per resumption: for well-formed frames and a callback that returns, its
  events are, frame after frame, the read of the frame and then the invocation of the
  callback with the entry of that frame; a frame is read only after the callback for the
  frame before it has returned.
\<close>

theorem frames_in_order:
  "listening t cb s st \<and>
   messages (ws_store st ! s) = map (\<lambda>kw. Some (PDict kw)) kws @ rest \<and>
   list_all (\<lambda>kw. kwargs_bind Entry_fields kw \<and> cb (Entry_of kw) = None) kws \<longrightarrow>
     trace (run_task t (length kws) st) = trace st @ concat (map (frame_events t s) kws) \<and>
     messages (ws_store (run_task t (length kws) st) ! s) = rest \<and>
     listening t cb s (run_task t (length kws) st)"
proof (induction kws arbitrary: st)
  case Nil
  show ?case by simp
next
  case (Cons kw kws)
  show ?case
  proof (intro impI)
    assume a: "listening t cb s st \<and>
      messages (ws_store st ! s) = map (\<lambda>kw. Some (PDict kw)) (kw # kws) @ rest \<and>
      list_all (\<lambda>kw. kwargs_bind Entry_fields kw \<and> cb (Entry_of kw) = None) (kw # kws)"
    then have l: "listening t cb s st"
      and m: "messages (ws_store st ! s) = Some (PDict kw) # (map (\<lambda>kw. Some (PDict kw)) kws @ rest)"
      and k: "kwargs_bind Entry_fields kw" "cb (Entry_of kw) = None"
      and r: "list_all (\<lambda>kw. kwargs_bind Entry_fields kw \<and> cb (Entry_of kw) = None) kws"
      by simp_all
    note s = step_task_frame_ok [OF l m k]
    from Cons.IH [of "step_task t st"] s r
    show "trace (run_task t (length (kw # kws)) st) =
            trace st @ concat (map (frame_events t s) (kw # kws)) \<and>
          messages (ws_store (run_task t (length (kw # kws)) st) ! s) = rest \<and>
          listening t cb s (run_task t (length (kw # kws)) st)"
      by simp
  qed
qed

theorem frames_in_order_witness:
  "listening 0 (\<lambda>e. None) 0 (run two_frames (init_state default_client)) \<and>
   trace (run_task 0 2 (run two_frames (init_state default_client))) =
     [WsOpen 0,
      Recv 0 0, Invoke 0 (Entry_of (sample_entry (PStr ''a''))),
      Recv 0 0, Invoke 0 (Entry_of (sample_entry (PStr ''b'')))] \<and>
   hash (Entry_of (sample_entry (PStr ''a''))) = PStr ''a'' \<and>
   hash (Entry_of (sample_entry (PStr ''b''))) = PStr ''b''"
proof -
  define st where "st = run two_frames (init_state default_client)"
  have l: "listening 0 (\<lambda>e. None) 0 st"
    and m: "messages (ws_store st ! 0) =
              map (\<lambda>kw. Some (PDict kw)) [sample_entry (PStr ''a''), sample_entry (PStr ''b'')] @ []"
    and t: "trace st = [WsOpen 0]"
    by (simp_all add: st_def two_frames_state listening_def)
  have k: "list_all (\<lambda>kw. kwargs_bind Entry_fields kw \<and> (\<lambda>e. None) (Entry_of kw) = (None :: exn option))
             [sample_entry (PStr ''a''), sample_entry (PStr ''b'')]"
    by (simp add: sample_entry_binds)
  from frames_in_order [of 0 "\<lambda>e. None" 0 st "[sample_entry (PStr ''a''), sample_entry (PStr ''b'')]" "[]"]
    l m k
  have "trace (run_task 0 (length [sample_entry (PStr ''a''), sample_entry (PStr ''b'')]) st) =
          trace st @ concat (map (frame_events 0 0) [sample_entry (PStr ''a''), sample_entry (PStr ''b'')])"
    by blast
  then have "trace (run_task 0 2 st) =
     [WsOpen 0,
      Recv 0 0, Invoke 0 (Entry_of (sample_entry (PStr ''a''))),
      Recv 0 0, Invoke 0 (Entry_of (sample_entry (PStr ''b'')))]"
    by (simp add: t frame_events_def numeral_2_eq_2)
  with l show ?thesis
    unfolding st_def by (simp add: Entry_of_sample)
qed

text \<open>
  C9 (as amended). Invoking the unsubscribe handle of a listener task again, at once or
  after any program, has no failing branch and is no no-op: it leaves the client object,
  the sockets, the events and the tasks there are as they are and schedules one more
  \<open>close()\<close> of the socket \<open>_ws\<close> holds at that time (nothing when \<open>_ws\<close> is \<open>None\<close>). And
  once the cancellation of the listener has completed, that is once its task is no longer
  pending, its callback is never invoked again, whatever the program does and whatever
  frames are left or still come.
\<close>

theorem unsubscribe_again:
  "t < length (tasks st) \<longrightarrow>
     unsubscribe t (run acts (unsubscribe t st)) =
       (case ws (self (run acts (unsubscribe t st))) of
          None \<Rightarrow> run acts (unsubscribe t st)
        | Some s \<Rightarrow> create_task (Close s) (run acts (unsubscribe t st))) \<and>
     (status (tasks st ! t) \<noteq> Pending \<longrightarrow>
        invocations t (trace (run acts st)) = invocations t (trace st))"
proof (intro impI conjI)
  assume t: "t < length (tasks st)"
  from dead_run_dead [OF dead_unsubscribe [OF t]]
  have "dead t (run acts (unsubscribe t st))" .
  then show "unsubscribe t (run acts (unsubscribe t st)) =
       (case ws (self (run acts (unsubscribe t st))) of
          None \<Rightarrow> run acts (unsubscribe t st)
        | Some s \<Rightarrow> create_task (Close s) (run acts (unsubscribe t st)))"
    by (rule unsubscribe_dead)
next
  assume t: "t < length (tasks st)" and p: "status (tasks st ! t) \<noteq> Pending"
  then have "dead t st" by (simp add: dead_def)
  then show "invocations t (trace (run acts st)) = invocations t (trace st)"
    by (rule dead_run)
qed

theorem unsubscribe_again_witness:
  "0 < length (tasks (run cancelled_with_frames (init_state default_client))) \<and>
   status (tasks (run cancelled_with_frames (init_state default_client)) ! 0) = Cancelled \<and>
   length (messages (ws_store (run cancelled_with_frames (init_state default_client)) ! 0)) = 2 \<and>
   invocations 0 (trace (run [Step 0, Deliver 0 (Some (PDict (sample_entry (PStr ''c'')))), Step 0]
                           (run cancelled_with_frames (init_state default_client)))) = [] \<and>
   tasks (unsubscribe 0 (run [Step 0] (unsubscribe 0
            (run cancelled_with_frames (init_state default_client))))) =
     tasks (run [Step 0] (unsubscribe 0 (run cancelled_with_frames (init_state default_client)))) @
     [pending_task (Close 0)]"
proof -
  define st where "st = run cancelled_with_frames (init_state default_client)"
  have l: "0 < length (tasks st)" and c: "status (tasks st ! 0) = Cancelled"
    and m: "length (messages (ws_store st ! 0)) = 2" and t: "trace st = [WsOpen 0]"
    by (simp_all add: st_def cancelled_with_frames_state)
  have w: "ws (self (run [Step 0] (unsubscribe 0 st))) = Some 0"
    by (simp add: step_task_frame unsubscribe_frame) (simp add: st_def cancelled_with_frames_state)
  from unsubscribe_again
         [of 0 st "[Step 0, Deliver 0 (Some (PDict (sample_entry (PStr ''c'')))), Step 0]"] l c
  have i: "invocations 0 (trace (run [Step 0, Deliver 0 (Some (PDict (sample_entry (PStr ''c'')))), Step 0] st)) =
           invocations 0 (trace st)"
    by simp
  from unsubscribe_again [of 0 st "[Step 0]"] l
  have "unsubscribe 0 (run [Step 0] (unsubscribe 0 st)) =
       (case ws (self (run [Step 0] (unsubscribe 0 st))) of
          None \<Rightarrow> run [Step 0] (unsubscribe 0 st)
        | Some s \<Rightarrow> create_task (Close s) (run [Step 0] (unsubscribe 0 st)))"
    by blast
  with w have "tasks (unsubscribe 0 (run [Step 0] (unsubscribe 0 st))) =
     tasks (run [Step 0] (unsubscribe 0 st)) @ [pending_task (Close 0)]"
    by (simp add: create_task_def pending_task_def)
  with l c m i t show ?thesis
    unfolding st_def by simp
qed

text \<open>
  C9 as stated fails: a later invocation is no no-op when the client has subscribed again
  in between. It closes the socket of the new subscription, whose listener ends.
\<close>

theorem later_invocation_closes_new_socket_counterexample:
  "map status (tasks (run resubscribed (init_state default_client))) = [Cancelled, Done, Pending] \<and>
   listening 2 (\<lambda>e. None) 1 (run resubscribed (init_state default_client)) \<and>
   listening 2 (\<lambda>e. None) 1 (run (resubscribed @ [Step 3, Step 2]) (init_state default_client)) \<and>
   map closed (ws_store (run (resubscribed @ [Step 3, Step 2]) (init_state default_client))) =
     [True, False] \<and>
   map closed (ws_store (run (resubscribed @ [Unsubscribe 0, Step 3, Step 2])
                            (init_state default_client))) = [True, True] \<and>
   map status (tasks (run (resubscribed @ [Unsubscribe 0, Step 3, Step 2])
                         (init_state default_client))) = [Cancelled, Done, Done, Done]"
  by (simp add: run_append resubscribed_state listening_def)
     (simp add: default_client_def AIngleClient_init_def unsubscribe_def step_task_def prims)

text \<open>
  C10. The unsubscribe handle leaves the client object as it is, so \<open>_ws\<close> still refers to
  the socket; the \<open>close()\<close> the handle scheduled and the \<open>close()\<close> of a following
  \<open>disconnect()\<close> run on that same socket, in either order; \<open>disconnect()\<close> touches no
  other socket; and in every program \<open>_ws\<close>, when set, is the socket opened last.
\<close>

theorem unsubscribe_keeps_ws:
  "self (unsubscribe t st) = self st \<and>
   (ws (self st) = Some s \<longrightarrow>
      tasks (unsubscribe t st) ! length (tasks st) = pending_task (Close s) \<and>
      close_calls s (trace (disconnect (step_task (length (tasks st)) (unsubscribe t st)))) =
        close_calls s (trace st) + 2 \<and>
      close_calls s (trace (step_task (length (tasks st)) (disconnect (unsubscribe t st)))) =
        close_calls s (trace st) + 2) \<and>
   (ws (self st) \<noteq> Some s \<longrightarrow>
      ws_store (disconnect st) ! s = ws_store st ! s \<and>
      close_calls s (trace (disconnect st)) = close_calls s (trace st)) \<and>
   (ws (self (run acts (init_state (AIngleClient_init nu wu tm dbg)))) = Some s \<longrightarrow>
      Suc s = length (ws_store (run acts (init_state (AIngleClient_init nu wu tm dbg)))))"
proof (intro conjI impI)
  show "self (unsubscribe t st) = self st"
    by (simp add: unsubscribe_frame)
next
  assume w: "ws (self st) = Some s"
  show "tasks (unsubscribe t st) ! length (tasks st) = pending_task (Close s)"
    using w by (simp add: unsubscribe_def Let_def task_cancel_def create_task_def
        pending_task_def nth_append)
  show "close_calls s (trace (disconnect (step_task (length (tasks st)) (unsubscribe t st)))) =
        close_calls s (trace st) + 2"
    using w by (simp add: disconnect_trace close_task_runs [OF w])
      (simp add: set_status_def ws_close_def log_def unsubscribe_frame close_calls_append)
  have d: "tasks (disconnect (unsubscribe t st)) = tasks (unsubscribe t st)"
    by (simp add: disconnect_frame)
  have "step_task (length (tasks st)) (disconnect (unsubscribe t st)) =
          set_status (length (tasks st)) Done (ws_close s (disconnect (unsubscribe t st)))"
    using w by (simp add: step_task_def d)
      (simp add: unsubscribe_def Let_def task_cancel_def create_task_def nth_append)
  then show "close_calls s (trace (step_task (length (tasks st)) (disconnect (unsubscribe t st)))) =
        close_calls s (trace st) + 2"
    using w by (simp add: set_status_def ws_close_def log_def close_calls_append disconnect_trace
        unsubscribe_frame)
next
  assume "ws (self st) \<noteq> Some s"
  then show "ws_store (disconnect st) ! s = ws_store st ! s"
    "close_calls s (trace (disconnect st)) = close_calls s (trace st)"
    by (simp_all add: disconnect_other_socket disconnect_trace)
next
  assume "ws (self (run acts (init_state (AIngleClient_init nu wu tm dbg)))) = Some s"
  with ws_latest_run [OF ws_latest_init, of acts nu wu tm dbg]
  show "Suc s = length (ws_store (run acts (init_state (AIngleClient_init nu wu tm dbg))))"
    by (simp add: ws_latest_def)
qed

theorem unsubscribe_keeps_ws_witness:
  "ws (self (run two_subscriptions (init_state default_client))) = Some 1 \<and>
   ws (self (unsubscribe 0 (run two_subscriptions (init_state default_client)))) = Some 1 \<and>
   close_calls 1 (trace (disconnect (step_task 2
       (unsubscribe 0 (run two_subscriptions (init_state default_client)))))) = 2 \<and>
   close_calls 0 (trace (disconnect (run two_subscriptions (init_state default_client)))) = 0 \<and>
   length (ws_store (run two_subscriptions (init_state default_client))) = 2"
proof -
  define st where "st = run two_subscriptions (init_state default_client)"
  have w: "ws (self st) = Some 1" "ws (self st) \<noteq> Some 0" and l: "length (tasks st) = 2"
    and t: "trace st = [WsOpen 0, WsOpen 1]"
    by (simp_all add: st_def two_subscriptions_state)
  have i: "st = run two_subscriptions
                  (init_state (AIngleClient_init ''http://localhost:8080'' ''ws://localhost:8081'' 30 False))"
    by (simp only: st_def default_client_def)
  from unsubscribe_keeps_ws [of 0 st 1 two_subscriptions
      "''http://localhost:8080''" "''ws://localhost:8081''" 30 False] w i
  have a: "self (unsubscribe 0 st) = self st"
    "close_calls 1 (trace (disconnect (step_task (length (tasks st)) (unsubscribe 0 st)))) =
       close_calls 1 (trace st) + 2"
    "Suc 1 = length (ws_store st)"
    by simp_all
  from unsubscribe_keeps_ws [of 0 st 0] w
  have b: "close_calls 0 (trace (disconnect st)) = close_calls 0 (trace st)"
    by blast
  from a b w l t show ?thesis
    unfolding st_def by simp
qed

end
